theory Spec2Isabelle
  imports Main "HOL-Library.Word"
begin

section \<open>The timer manager of \<^verbatim>\<open>src/core/lib/iomgr/timer_manager.cc\<close>\<close>

text \<open>
  The file keeps one process-wide coordinator in static variables, all of them guarded by
  the mutex \<^verbatim>\<open>g_mu\<close>. Every function below is the body of the C++ function of the same
  name, with the static variables passed in and handed back as a record. What a function
  does to the outside (condition variables, threads, the timer engine, the execution
  context) is returned as a list of events in program order.

  A thread that gives up the mutex in the middle of a function (in \<^verbatim>\<open>gpr_cv_wait\<close>, or
  between an unlock and the next lock) finds the coordinator as the other threads left it.
  That is an argument of the model: an interference, a function from the coordinator at
  the moment the mutex is released to the coordinator at the moment it is held again.
  A \<^verbatim>\<open>gpr_cv_wait\<close> that is never woken has no such moment; then the call does not return
  and the model gives \<open>None\<close>.

  The trace output (\<^verbatim>\<open>GRPC_TRACE_LOG\<close>, \<^verbatim>\<open>LOG(INFO)\<close>) writes no variable of the file and
  is left out.
\<close>

subsection \<open>Data\<close>

text \<open>
  Modelled from the spec: \<^verbatim>\<open>grpc_core::Timestamp\<close> is declared outside this file. The
  spec calls it an absolute, monotonic deadline with a value "infinite future"; it is taken
  here as gRPC has it, a signed 64-bit count of milliseconds, compared as signed numbers,
  whose largest value is \<^verbatim>\<open>InfFuture()\<close>.
\<close>

type_synonym Timestamp = "64 word"

definition InfFuture :: Timestamp where
  "InfFuture = 0x7FFFFFFFFFFFFFFF"

definition ts_less :: "Timestamp \<Rightarrow> Timestamp \<Rightarrow> bool" where
  "ts_less a b = (sint a < sint b)"

text \<open>A \<^verbatim>\<open>completed_thread*\<close>: the handle of one worker thread.\<close>

type_synonym completed_thread = nat

text \<open>
  The static variables. \<^verbatim>\<open>int\<close> is a 32-bit word read as two's complement,
  \<^verbatim>\<open>uint64_t\<close> a 64-bit word; \<open>+\<close> and \<open>-\<close> wrap around. The linked list
  \<^verbatim>\<open>g_completed_threads\<close> is the list of its handles, head first.
\<close>

record coordinator =
  g_threaded :: bool
  g_start_threaded :: bool
  g_thread_count :: "32 word"
  g_waiter_count :: "32 word"
  g_completed_threads :: "completed_thread list"
  g_kicked :: bool
  g_has_timed_waiter :: bool
  g_timed_waiter_deadline :: Timestamp
  g_timed_waiter_generation :: "64 word"
  g_wakeups :: "64 word"

datatype event =
    Signal_cv_wait              \<comment> \<open>\<^verbatim>\<open>gpr_cv_signal(&g_cv_wait)\<close>\<close>
  | Broadcast_cv_wait           \<comment> \<open>\<^verbatim>\<open>gpr_cv_broadcast(&g_cv_wait)\<close>\<close>
  | Signal_cv_shutdown          \<comment> \<open>\<^verbatim>\<open>gpr_cv_signal(&g_cv_shutdown)\<close>\<close>
  | Wait_cv_wait Timestamp      \<comment> \<open>\<^verbatim>\<open>gpr_cv_wait(&g_cv_wait, &g_mu, deadline)\<close>\<close>
  | Wait_cv_shutdown            \<comment> \<open>\<^verbatim>\<open>gpr_cv_wait(&g_cv_shutdown, &g_mu, inf_future)\<close>\<close>
  | Thread_start                \<comment> \<open>a new \<^verbatim>\<open>grpc_global_timer\<close> thread is started\<close>
  | Thread_join completed_thread
  | Consume_kick                \<comment> \<open>\<^verbatim>\<open>grpc_timer_consume_kick()\<close>\<close>
  | Flush_exec_ctx              \<comment> \<open>\<^verbatim>\<open>ExecCtx::Get()->Flush()\<close>\<close>

type_synonym interference = "coordinator \<Rightarrow> coordinator"

subsection \<open>Joining and starting threads\<close>

text \<open>
  \<^verbatim>\<open>gc_completed_threads\<close>: called with the mutex held. A non-empty list is detached,
  the mutex is released while every handle is joined, and taken again.
\<close>

definition gc_completed_threads ::
  "interference \<Rightarrow> coordinator \<Rightarrow> event list \<times> coordinator" where
  "gc_completed_threads joining s =
     (if g_completed_threads s \<noteq> [] then
        (map Thread_join (g_completed_threads s),
         joining (s\<lparr>g_completed_threads := []\<rparr>))
      else ([], s))"

text \<open>
  \<^verbatim>\<open>start_timer_thread_and_unlock\<close>: \<^verbatim>\<open>CHECK(g_threaded)\<close> aborts the process
  (\<open>None\<close>) when the pool is not threaded.
\<close>

definition start_timer_thread_and_unlock ::
  "coordinator \<Rightarrow> (event list \<times> coordinator) option" where
  "start_timer_thread_and_unlock s =
     (if \<not> g_threaded s then None
      else Some ([Thread_start],
                 s\<lparr>g_waiter_count := g_waiter_count s + 1,
                   g_thread_count := g_thread_count s + 1\<rparr>))"

subsection \<open>Running timers\<close>

text \<open>The first critical section of \<^verbatim>\<open>run_some_timers\<close>, up to the unlock.\<close>

definition run_some_timers_begin ::
  "coordinator \<Rightarrow> (event list \<times> coordinator) option" where
  "run_some_timers_begin s =
     (let s1 = s\<lparr>g_waiter_count := g_waiter_count s - 1\<rparr> in
      if g_waiter_count s1 = 0 \<and> g_threaded s1 then start_timer_thread_and_unlock s1
      else Some (if \<not> g_has_timed_waiter s1 then [Signal_cv_wait] else [], s1))"

text \<open>
  \<^verbatim>\<open>run_some_timers\<close>: the first section, the flush without the mutex (\<open>flushing\<close> is
  what happened to the coordinator meanwhile), then the second section: collect the
  completed threads and count this worker as a waiter again.
\<close>

definition run_some_timers ::
  "interference \<Rightarrow> interference \<Rightarrow> coordinator \<Rightarrow> (event list \<times> coordinator) option" where
  "run_some_timers flushing joining s =
     (case run_some_timers_begin s of
        None \<Rightarrow> None
      | Some (ev1, s1) \<Rightarrow>
          (let s2 = flushing s1;
               (ev2, s3) = gc_completed_threads joining s2
           in Some (ev1 @ [Flush_exec_ctx] @ ev2,
                    s3\<lparr>g_waiter_count := g_waiter_count s3 + 1\<rparr>)))"

subsection \<open>Waiting\<close>

text \<open>
  The election in \<^verbatim>\<open>wait_until\<close> (from the declaration of
  \<^verbatim>\<open>my_timed_waiter_generation\<close> to the call of \<^verbatim>\<open>gpr_cv_wait\<close>): the result is
  the worker's \<^verbatim>\<open>my_timed_waiter_generation\<close>, the deadline it will sleep to, and the
  coordinator.
\<close>

definition wait_until_elect ::
  "Timestamp \<Rightarrow> coordinator \<Rightarrow> 64 word \<times> Timestamp \<times> coordinator" where
  "wait_until_elect next s =
     (let my_timed_waiter_generation = g_timed_waiter_generation s - 1 in
      if next \<noteq> InfFuture then
        if \<not> g_has_timed_waiter s \<or> ts_less next (g_timed_waiter_deadline s) then
          (let s1 = s\<lparr>g_timed_waiter_generation := g_timed_waiter_generation s + 1\<rparr> in
           (g_timed_waiter_generation s1, next,
            s1\<lparr>g_has_timed_waiter := True, g_timed_waiter_deadline := next\<rparr>))
        else (my_timed_waiter_generation, InfFuture, s)
      else (my_timed_waiter_generation, next, s))"

text \<open>After \<^verbatim>\<open>gpr_cv_wait\<close> has returned: was this worker the timed waiter?\<close>

definition wait_until_woken :: "64 word \<Rightarrow> coordinator \<Rightarrow> coordinator" where
  "wait_until_woken my_timed_waiter_generation s =
     (if my_timed_waiter_generation = g_timed_waiter_generation s then
        s\<lparr>g_wakeups := g_wakeups s + 1,
          g_has_timed_waiter := False,
          g_timed_waiter_deadline := InfFuture\<rparr>
      else s)"

text \<open>The last test of \<^verbatim>\<open>wait_until\<close>: \<^verbatim>\<open>if (g_kicked) { ... }\<close>.\<close>

definition wait_until_consume :: "coordinator \<Rightarrow> event list \<times> coordinator" where
  "wait_until_consume s =
     (if g_kicked s then ([Consume_kick], s\<lparr>g_kicked := False\<rparr>) else ([], s))"

text \<open>
  \<^verbatim>\<open>wait_until\<close>. \<open>waking\<close> is what \<^verbatim>\<open>gpr_cv_wait\<close> does: \<open>None\<close> when the worker
  is never woken, \<open>Some f\<close> when it returns and the other threads have turned the
  coordinator \<open>c\<close> into \<open>f c\<close> meanwhile.
\<close>

definition wait_until ::
  "interference option \<Rightarrow> Timestamp \<Rightarrow> coordinator \<Rightarrow> (bool \<times> event list \<times> coordinator) option" where
  "wait_until waking next s =
     (if \<not> g_threaded s then Some (False, [], s)
      else if \<not> g_kicked s then
        (let (my_timed_waiter_generation, next1, s1) = wait_until_elect next s in
         case waking of
           None \<Rightarrow> None
         | Some f \<Rightarrow>
             (let (ev, s2) = wait_until_consume (wait_until_woken my_timed_waiter_generation (f s1))
              in Some (True, Wait_cv_wait next1 # ev, s2)))
      else
        (let (ev, s2) = wait_until_consume s in Some (True, ev, s2)))"

subsection \<open>Leaving, starting, stopping, kicking\<close>

text \<open>\<^verbatim>\<open>timer_thread_cleanup(ct)\<close>.\<close>

definition timer_thread_cleanup :: "completed_thread \<Rightarrow> coordinator \<Rightarrow> event list \<times> coordinator" where
  "timer_thread_cleanup ct s =
     (let s1 = s\<lparr>g_waiter_count := g_waiter_count s - 1,
                 g_thread_count := g_thread_count s - 1\<rparr>
      in (if 0 = g_thread_count s1 then [Signal_cv_shutdown] else [],
          s1\<lparr>g_completed_threads := ct # g_completed_threads s1\<rparr>))"

definition start_threads :: "coordinator \<Rightarrow> (event list \<times> coordinator) option" where
  "start_threads s =
     (if \<not> g_threaded s then start_timer_thread_and_unlock (s\<lparr>g_threaded := True\<rparr>)
      else Some ([], s))"

text \<open>
  \<^verbatim>\<open>grpc_timer_manager_init\<close>. The mutex and the condition variables it initialises
  carry no data of the model.
\<close>

definition grpc_timer_manager_init :: "coordinator \<Rightarrow> (event list \<times> coordinator) option" where
  "grpc_timer_manager_init s =
     (let s1 = s\<lparr>g_threaded := False,
                 g_thread_count := 0,
                 g_waiter_count := 0,
                 g_completed_threads := [],
                 g_has_timed_waiter := False,
                 g_timed_waiter_deadline := InfFuture\<rparr>
      in if g_start_threaded s1 then start_threads s1 else Some ([], s1))"

text \<open>
  The loop of \<^verbatim>\<open>stop_threads\<close>. Each turn waits on \<^verbatim>\<open>g_cv_shutdown\<close> and collects
  the completed threads, so it gives up the mutex once or twice; the schedule has one
  pair of interferences for each time the wait returns. When the schedule is used up the
  thread is not woken again.
\<close>

fun stop_threads_loop ::
  "(interference \<times> interference) list \<Rightarrow> coordinator \<Rightarrow> (event list \<times> coordinator) option" where
  "stop_threads_loop [] s =
     (if 0 < sint (g_thread_count s) then None else Some ([], s))"
| "stop_threads_loop ((waking, joining) # sched) s =
     (if 0 < sint (g_thread_count s) then
        (let (ev1, s1) = gc_completed_threads joining (waking s) in
         case stop_threads_loop sched s1 of
           None \<Rightarrow> None
         | Some (ev2, s2) \<Rightarrow> Some (Wait_cv_shutdown # ev1 @ ev2, s2))
      else Some ([], s))"

definition stop_threads ::
  "(interference \<times> interference) list \<Rightarrow> coordinator \<Rightarrow> (event list \<times> coordinator) option" where
  "stop_threads sched s =
     (case (if g_threaded s then
              (case stop_threads_loop sched (s\<lparr>g_threaded := False\<rparr>) of
                 None \<Rightarrow> None
               | Some (ev, s1) \<Rightarrow> Some (Broadcast_cv_wait # ev, s1))
            else Some ([], s)) of
        None \<Rightarrow> None
      | Some (ev, s1) \<Rightarrow> Some (ev, s1\<lparr>g_wakeups := 0\<rparr>))"

definition grpc_timer_manager_set_threading ::
  "bool \<Rightarrow> (interference \<times> interference) list \<Rightarrow> coordinator \<Rightarrow> (event list \<times> coordinator) option" where
  "grpc_timer_manager_set_threading enabled sched s =
     (if enabled then start_threads s else stop_threads sched s)"

definition grpc_timer_manager_set_start_threaded :: "bool \<Rightarrow> coordinator \<Rightarrow> coordinator" where
  "grpc_timer_manager_set_start_threaded enabled s = s\<lparr>g_start_threaded := enabled\<rparr>"

definition grpc_kick_poller :: "coordinator \<Rightarrow> event list \<times> coordinator" where
  "grpc_kick_poller s =
     ([Signal_cv_wait],
      s\<lparr>g_kicked := True,
        g_has_timed_waiter := False,
        g_timed_waiter_deadline := InfFuture,
        g_timed_waiter_generation := g_timed_waiter_generation s + 1\<rparr>)"

definition grpc_timer_manager_get_wakeups_testonly :: "coordinator \<Rightarrow> 64 word" where
  "grpc_timer_manager_get_wakeups_testonly s = g_wakeups s"

subsection \<open>One call after another\<close>

text \<open>
  Two calls made one after the other by one thread, with no other thread at work between
  them: the second starts from the coordinator the first has left, and the events follow
  each other.
\<close>

definition and_then ::
  "(coordinator \<Rightarrow> (event list \<times> coordinator) option) \<Rightarrow>
   (coordinator \<Rightarrow> (event list \<times> coordinator) option) \<Rightarrow>
   coordinator \<Rightarrow> (event list \<times> coordinator) option" where
  "and_then first second s =
     (case first s of
        None \<Rightarrow> None
      | Some (ev1, s1) \<Rightarrow>
          (case second s1 of
             None \<Rightarrow> None
           | Some (ev2, s2) \<Rightarrow> Some (ev1 @ ev2, s2)))"

subsection \<open>What the other threads do while one sleeps\<close>

text \<open>
  The critical sections of the file: the stretches of code that run with \<^verbatim>\<open>g_mu\<close>
  held, from a lock (or a return of \<^verbatim>\<open>gpr_cv_wait\<close>) to the next unlock (or call of
  \<^verbatim>\<open>gpr_cv_wait\<close>). The threads of the process run them one at a time, in any order.
  \<^verbatim>\<open>grpc_timer_manager_init\<close> takes no lock and sets the mutex up anew; it is not among
  them.
\<close>

datatype critical_section =
    Kick_poller                       \<comment> \<open>\<^verbatim>\<open>grpc_kick_poller\<close>\<close>
  | Wait_until_enter Timestamp        \<comment> \<open>\<^verbatim>\<open>wait_until(next)\<close> to its wait, or to its return without one\<close>
  | Wait_until_return "64 word"       \<comment> \<open>\<^verbatim>\<open>wait_until\<close> after its wait; the worker's generation\<close>
  | Run_some_timers_enter             \<comment> \<open>\<^verbatim>\<open>run_some_timers\<close> before the flush\<close>
  | Gc_detach                         \<comment> \<open>\<^verbatim>\<open>gc_completed_threads\<close>: the list is taken\<close>
  | Run_some_timers_return            \<comment> \<open>\<^verbatim>\<open>run_some_timers\<close>: \<^verbatim>\<open>++g_waiter_count\<close>\<close>
  | Thread_cleanup completed_thread   \<comment> \<open>\<^verbatim>\<open>timer_thread_cleanup(ct)\<close>\<close>
  | Start_threads                     \<comment> \<open>\<^verbatim>\<open>start_threads\<close>\<close>
  | Stop_threads_enter                \<comment> \<open>\<^verbatim>\<open>stop_threads\<close>: \<^verbatim>\<open>g_threaded = false\<close> when threaded\<close>
  | Stop_threads_return               \<comment> \<open>\<^verbatim>\<open>stop_threads\<close>: \<^verbatim>\<open>g_wakeups = 0\<close>\<close>

fun section_effect :: "critical_section \<Rightarrow> interference" where
  "section_effect Kick_poller s = snd (grpc_kick_poller s)"
| "section_effect (Wait_until_enter next) s =
     (if \<not> g_threaded s then s
      else if \<not> g_kicked s then snd (snd (wait_until_elect next s))
      else snd (wait_until_consume s))"
| "section_effect (Wait_until_return my_timed_waiter_generation) s =
     snd (wait_until_consume (wait_until_woken my_timed_waiter_generation s))"
| "section_effect Run_some_timers_enter s =
     (case run_some_timers_begin s of None \<Rightarrow> s | Some (ev, s1) \<Rightarrow> s1)"
| "section_effect Gc_detach s = s\<lparr>g_completed_threads := []\<rparr>"
| "section_effect Run_some_timers_return s = s\<lparr>g_waiter_count := g_waiter_count s + 1\<rparr>"
| "section_effect (Thread_cleanup ct) s = snd (timer_thread_cleanup ct s)"
| "section_effect Start_threads s =
     (case start_threads s of None \<Rightarrow> s | Some (ev, s1) \<Rightarrow> s1)"
| "section_effect Stop_threads_enter s = (if g_threaded s then s\<lparr>g_threaded := False\<rparr> else s)"
| "section_effect Stop_threads_return s = s\<lparr>g_wakeups := 0\<rparr>"

definition run_sections :: "critical_section list \<Rightarrow> interference" where
  "run_sections cs s = fold section_effect cs s"

text \<open>
  The sections that write \<open>g_timed_waiter_generation\<close>: a kick, and an entry into
  \<^verbatim>\<open>wait_until\<close> that takes the timed-waiter role. \<open>count_increments cs s\<close> is the
  number of such sections when \<open>cs\<close> runs from \<open>s\<close>.
\<close>

fun increments :: "critical_section \<Rightarrow> coordinator \<Rightarrow> bool" where
  "increments Kick_poller s = True"
| "increments (Wait_until_enter next) s =
     (g_threaded s \<and> \<not> g_kicked s \<and> next \<noteq> InfFuture \<and>
      (\<not> g_has_timed_waiter s \<or> ts_less next (g_timed_waiter_deadline s)))"
| "increments c s = False"

fun count_increments :: "critical_section list \<Rightarrow> coordinator \<Rightarrow> nat" where
  "count_increments [] s = 0"
| "count_increments (c # cs) s =
     (if increments c s then 1 else 0) + count_increments cs (section_effect c s)"

subsection \<open>Coordinators to compute with\<close>

text \<open>A running pool of two workers, both waiting, none of them with a deadline.\<close>

definition pool_idle :: coordinator where
  "pool_idle =
     \<lparr>g_threaded = True, g_start_threaded = True, g_thread_count = 2, g_waiter_count = 2,
      g_completed_threads = [], g_kicked = False, g_has_timed_waiter = False,
      g_timed_waiter_deadline = InfFuture, g_timed_waiter_generation = 7, g_wakeups = 3\<rparr>"

text \<open>The same pool with a timed waiter sleeping to the deadline 500.\<close>

definition pool_timed :: coordinator where
  "pool_timed = pool_idle\<lparr>g_has_timed_waiter := True, g_timed_waiter_deadline := 500\<rparr>"

text \<open>The same pool with a kick pending.\<close>

definition pool_kicked :: coordinator where
  "pool_kicked = pool_idle\<lparr>g_kicked := True\<rparr>"

text \<open>A pool that is not threaded: no worker, five wakeups counted, a kick pending.\<close>

definition pool_stopped :: coordinator where
  "pool_stopped =
     \<lparr>g_threaded = False, g_start_threaded = False, g_thread_count = 0, g_waiter_count = 0,
      g_completed_threads = [], g_kicked = True, g_has_timed_waiter = False,
      g_timed_waiter_deadline = InfFuture, g_timed_waiter_generation = 7, g_wakeups = 5\<rparr>"

section \<open>Properties\<close>

subsection \<open>Auxiliary facts\<close>

text \<open>
  \<^verbatim>\<open>start_threads\<close> always returns: it sets \<open>g_threaded\<close> before the \<^verbatim>\<open>CHECK\<close>.
\<close>

lemma start_threads_returns:
  "start_threads s =
     Some (if g_threaded s then [] else [Thread_start],
           if g_threaded s then s
           else s\<lparr>g_threaded := True,
                  g_waiter_count := g_waiter_count s + 1,
                  g_thread_count := g_thread_count s + 1\<rparr>)"
  by (simp add: start_threads_def start_timer_thread_and_unlock_def)

text \<open>
  When the loop of \<^verbatim>\<open>stop_threads\<close> ends, no thread is counted any more.
\<close>

lemma stop_threads_loop_drained:
  "stop_threads_loop sched s = Some (ev, s1) \<Longrightarrow> \<not> 0 < sint (g_thread_count s1)"
proof (induction sched arbitrary: s ev)
  case Nil
  then show ?case by (simp split: if_splits)
next
  case (Cons p sched)
  obtain waking joining where p: "p = (waking, joining)" by (cases p)
  show ?case
  proof (cases "0 < sint (g_thread_count s)")
    case False
    with Cons.prems p show ?thesis by simp
  next
    case True
    obtain ev1 s0 where gc: "gc_completed_threads joining (waking s) = (ev1, s0)"
      by (cases "gc_completed_threads joining (waking s)")
    with Cons.prems p True obtain ev2 where "stop_threads_loop sched s0 = Some (ev2, s1)"
      by (auto split: option.splits)
    then show ?thesis by (rule Cons.IH)
  qed
qed

text \<open>
  A critical section adds one to \<open>g_timed_waiter_generation\<close> when it is a kick or a
  won election and leaves it alone otherwise, so a run of sections adds the number of
  those, modulo \<open>2 ^ 64\<close>.
\<close>

lemma generation_section_exact:
  "g_timed_waiter_generation (section_effect c s) =
     g_timed_waiter_generation s + (if increments c s then 1 else 0)"
  by (cases c)
     (auto simp: grpc_kick_poller_def wait_until_elect_def wait_until_consume_def
        wait_until_woken_def run_some_timers_begin_def start_timer_thread_and_unlock_def
        timer_thread_cleanup_def start_threads_def Let_def split: option.splits if_splits)

lemma generation_run_exact:
  "g_timed_waiter_generation (run_sections cs s) =
     g_timed_waiter_generation s + of_nat (count_increments cs s)"
proof (induction cs arbitrary: s)
  case Nil
  then show ?case by (simp add: run_sections_def)
next
  case (Cons c cs)
  have "run_sections (c # cs) s = run_sections cs (section_effect c s)"
    by (simp add: run_sections_def)
  then show ?case
    by (simp add: Cons.IH generation_section_exact)
qed

lemma word64_no_wrap_le:
  fixes a :: "64 word"
  assumes "unat a + k < 2 ^ 64"
  shows "a \<le> a + of_nat k"
proof -
  have k: "k < 2 ^ 64" using assms by simp
  then have "unat (of_nat k :: 64 word) = k" by (simp add: unat_of_nat)
  with assms have "unat a + unat (of_nat k :: 64 word) < 2 ^ LENGTH(64)" by simp
  then show ?thesis by (simp add: no_olen_add_nat)
qed

lemma word64_of_nat_not_minus_one:
  assumes "k < 2 ^ 64 - 1"
  shows "(of_nat k :: 64 word) \<noteq> - 1"
proof
  assume "(of_nat k :: 64 word) = - 1"
  then have "unat (of_nat k :: 64 word) = unat (- 1 :: 64 word)" by simp
  then have "k mod 2 ^ 64 = 2 ^ 64 - 1"
    by (simp add: unat_of_nat unsigned_minus_1_eq_mask mask_eq_exp_minus_1)
  with assms show False by simp
qed

subsection \<open>The claims\<close>

text \<open>
  C1. For every coordinator, \<^verbatim>\<open>grpc_kick_poller\<close> sets \<open>kicked\<close>, clears
  \<open>has_timed_waiter\<close>, sets \<open>timed_waiter_deadline\<close> to the infinite future, adds one to
  \<open>timed_waiter_generation\<close> (a 64-bit counter) and signals the wait condition variable
  once, without broadcasting; \<open>threaded\<close>, \<open>start_threaded\<close>, \<open>thread_count\<close>,
  \<open>waiter_count\<close>, \<open>wakeups\<close> and \<open>completed_threads\<close> keep their values.
\<close>

theorem kick_effect:
  "grpc_kick_poller s =
     ([Signal_cv_wait],
      \<lparr>g_threaded = g_threaded s,
       g_start_threaded = g_start_threaded s,
       g_thread_count = g_thread_count s,
       g_waiter_count = g_waiter_count s,
       g_completed_threads = g_completed_threads s,
       g_kicked = True,
       g_has_timed_waiter = False,
       g_timed_waiter_deadline = InfFuture,
       g_timed_waiter_generation = g_timed_waiter_generation s + 1,
       g_wakeups = g_wakeups s\<rparr>)"
  by (cases s) (simp add: grpc_kick_poller_def)

text \<open>
  A kick in the pool whose timed waiter sleeps to 500: the waiter's role is gone, the generation goes from 7 to 8.
\<close>

theorem kick_effect_witness:
  "grpc_kick_poller pool_timed =
     ([Signal_cv_wait], pool_idle\<lparr>g_kicked := True, g_timed_waiter_generation := 8\<rparr>)"
  using kick_effect [of pool_timed] by (simp add: pool_timed_def pool_idle_def InfFuture_def)

text \<open>
  C2. In \<^verbatim>\<open>wait_until\<close>, entered with \<open>threaded\<close> true and \<open>kicked\<close> false, the
  worker takes the timed-waiter role (its own generation is the coordinator's when it goes
  to sleep) if and only if \<open>next\<close> is not the infinite future and there is no timed waiter
  or \<open>next\<close> is strictly earlier than \<open>timed_waiter_deadline\<close>. Taking the role adds one
  to \<open>timed_waiter_generation\<close>, records the new value as the worker's own, sets
  \<open>has_timed_waiter\<close> and sets \<open>timed_waiter_deadline\<close> to \<open>next\<close>, and the worker
  sleeps to \<open>next\<close>. A worker that does not take it keeps the sentinel
  \<open>timed_waiter_generation - 1\<close> and changes nothing. When a timed waiter holds an
  earlier or equal deadline the worker sleeps to the infinite future; in particular an equal
  deadline leaves the incumbent in place. The call then waits with that deadline, and when it
  is woken it returns true.
\<close>

theorem wait_until_election:
  assumes "g_threaded s" and "\<not> g_kicked s"
  shows "\<exists>my next1 s1.
           wait_until_elect next s = (my, next1, s1) \<and>
           (my = g_timed_waiter_generation s1 \<longleftrightarrow>
              next \<noteq> InfFuture \<and>
              (\<not> g_has_timed_waiter s \<or> ts_less next (g_timed_waiter_deadline s))) \<and>
           (my = g_timed_waiter_generation s1 \<longrightarrow>
              my = g_timed_waiter_generation s + 1 \<and> next1 = next \<and>
              s1 = s\<lparr>g_timed_waiter_generation := g_timed_waiter_generation s + 1,
                     g_has_timed_waiter := True,
                     g_timed_waiter_deadline := next\<rparr>) \<and>
           (my \<noteq> g_timed_waiter_generation s1 \<longrightarrow>
              my = g_timed_waiter_generation s - 1 \<and> s1 = s) \<and>
           (g_has_timed_waiter s \<and> \<not> ts_less next (g_timed_waiter_deadline s) \<longrightarrow>
              next1 = InfFuture \<and> s1 = s) \<and>
           (g_has_timed_waiter s \<and> next = g_timed_waiter_deadline s \<longrightarrow> s1 = s) \<and>
           wait_until None next s = None \<and>
           (\<forall>f. wait_until (Some f) next s =
                  Some (True,
                        Wait_cv_wait next1 # fst (wait_until_consume (wait_until_woken my (f s1))),
                        snd (wait_until_consume (wait_until_woken my (f s1)))))"
  using assms
  by (auto simp: wait_until_def wait_until_elect_def ts_less_def Let_def split: prod.splits)

text \<open>
  With a timed waiter sleeping to 500, a worker that comes with 500 stays an untimed
  waiter with the sentinel 6 and sleeps for ever; one that comes with 499 takes over with
  generation 8.
\<close>

theorem wait_until_election_witness:
  "g_threaded pool_timed \<and> \<not> g_kicked pool_timed \<and>
   wait_until_elect 500 pool_timed = (6, InfFuture, pool_timed) \<and>
   wait_until (Some id) 500 pool_timed = Some (True, [Wait_cv_wait InfFuture], pool_timed) \<and>
   wait_until_elect 499 pool_timed =
     (8, 499, pool_timed\<lparr>g_timed_waiter_generation := 8, g_timed_waiter_deadline := 499\<rparr>)"
proof -
  have h: "g_threaded pool_timed" "\<not> g_kicked pool_timed"
    by (simp_all add: pool_timed_def pool_idle_def)
  have e: "wait_until_elect 500 pool_timed = (6, InfFuture, pool_timed)"
    by (simp add: wait_until_elect_def pool_timed_def pool_idle_def ts_less_def InfFuture_def)
  have e': "wait_until_elect 499 pool_timed =
     (8, 499, pool_timed\<lparr>g_timed_waiter_generation := 8, g_timed_waiter_deadline := 499\<rparr>)"
    by (simp add: wait_until_elect_def pool_timed_def pool_idle_def ts_less_def InfFuture_def)
  have w: "wait_until_consume (wait_until_woken 6 pool_timed) = ([], pool_timed)"
    by (simp add: wait_until_consume_def wait_until_woken_def pool_timed_def pool_idle_def)
  from wait_until_election [OF h, of 500] e w
  have "wait_until (Some id) 500 pool_timed = Some (True, [Wait_cv_wait InfFuture], pool_timed)"
    by auto
  with h e e' show ?thesis by simp
qed

text \<open>
  C3, as the code has it. \<^verbatim>\<open>stop_threads\<close> called while \<open>threaded\<close> is false
  broadcasts nothing, waits for nothing and joins nothing; it returns with \<open>wakeups\<close>
  set to zero and every other field of the coordinator as it was. (The assignment
  \<^verbatim>\<open>g_wakeups = 0\<close> stands after the \<^verbatim>\<open>if (g_threaded)\<close> block, not in it.)
\<close>

theorem stop_threads_not_threaded:
  assumes "\<not> g_threaded s"
  shows "stop_threads sched s = Some ([], s\<lparr>g_wakeups := 0\<rparr>)"
  using assms by (simp add: stop_threads_def)

theorem stop_threads_not_threaded_witness:
  "\<not> g_threaded pool_stopped \<and>
   stop_threads [(id, id)] pool_stopped =
     Some ([], pool_stopped\<lparr>g_wakeups := 0\<rparr>)"
proof -
  have h: "\<not> g_threaded pool_stopped" by (simp add: pool_stopped_def)
  from h stop_threads_not_threaded [OF h, of "[(id, id)]"] show ?thesis by simp
qed

text \<open>
  C3 as it was stated, that no field changes, fails: stopping the pool that is not
  threaded and has counted five wakeups leaves a coordinator with none.
\<close>

theorem stop_threads_not_threaded_changes_wakeups:
  "\<not> g_threaded pool_stopped \<and>
   stop_threads [] pool_stopped = Some ([], pool_stopped\<lparr>g_wakeups := 0\<rparr>) \<and>
   g_wakeups pool_stopped = 5 \<and>
   stop_threads [] pool_stopped \<noteq> Some ([], pool_stopped)"
  by (simp add: stop_threads_def pool_stopped_def)

text \<open>
  C4. \<^verbatim>\<open>grpc_timer_manager_set_threading(true)\<close> on a threaded pool changes nothing
  and starts no thread. On a pool that is not threaded it sets \<open>threaded\<close>, starts exactly
  one thread and adds one to \<open>thread_count\<close> and to \<open>waiter_count\<close>. Calling it twice
  in a row gives the events and the coordinator of calling it once: one thread started,
  not two.
\<close>

theorem start_threads_idempotent:
  "(g_threaded s \<longrightarrow> grpc_timer_manager_set_threading True sched s = Some ([], s)) \<and>
   (\<not> g_threaded s \<longrightarrow>
      grpc_timer_manager_set_threading True sched s =
        Some ([Thread_start],
              s\<lparr>g_threaded := True,
                g_waiter_count := g_waiter_count s + 1,
                g_thread_count := g_thread_count s + 1\<rparr>)) \<and>
   and_then (grpc_timer_manager_set_threading True sched)
            (grpc_timer_manager_set_threading True sched') s =
     grpc_timer_manager_set_threading True sched s"
  by (simp add: grpc_timer_manager_set_threading_def and_then_def start_threads_returns)

theorem start_threads_idempotent_witness:
  "\<not> g_threaded pool_stopped \<and> g_threaded pool_idle \<and>
   grpc_timer_manager_set_threading True [] pool_idle = Some ([], pool_idle) \<and>
   and_then (grpc_timer_manager_set_threading True [])
            (grpc_timer_manager_set_threading True []) pool_stopped =
     Some ([Thread_start],
           pool_stopped\<lparr>g_threaded := True, g_waiter_count := 1, g_thread_count := 1\<rparr>)"
proof -
  have h: "\<not> g_threaded pool_stopped" "g_threaded pool_idle"
    by (simp_all add: pool_stopped_def pool_idle_def)
  have c: "g_waiter_count pool_stopped = 0" "g_thread_count pool_stopped = 0"
    by (simp_all add: pool_stopped_def)
  from h c start_threads_idempotent [of pool_stopped "[]" "[]"]
    start_threads_idempotent [of pool_idle "[]" "[]"]
  show ?thesis by simp
qed

text \<open>
  C5. Whatever \<open>wakeups\<close> was, when \<^verbatim>\<open>grpc_timer_manager_set_threading(false)\<close>
  returns \<open>wakeups\<close> is zero; a following \<^verbatim>\<open>grpc_timer_manager_set_threading(true)\<close>
  returns and leaves \<open>wakeups\<close> alone, so after the two calls \<open>wakeups\<close> is zero. The
  first call does return when the pool is not threaded, when it has no thread left, or
  when the first wake-up on the shutdown condition variable finds no thread left (that
  variable is signalled by the last worker to leave).
\<close>

theorem stop_resets_wakeups:
  "(\<forall>ev s1. grpc_timer_manager_set_threading False sched s = Some (ev, s1) \<longrightarrow>
      g_wakeups s1 = 0 \<and>
      (\<exists>ev2 s2. grpc_timer_manager_set_threading True sched' s1 = Some (ev2, s2) \<and>
                 g_wakeups s2 = g_wakeups s1) \<and>
      (\<exists>ev3 s3. and_then (grpc_timer_manager_set_threading False sched)
                          (grpc_timer_manager_set_threading True sched') s = Some (ev3, s3) \<and>
                 g_wakeups s3 = 0)) \<and>
   (\<not> g_threaded s \<or> \<not> 0 < sint (g_thread_count s) \<or>
    (\<exists>waking joining rest. sched = (waking, joining) # rest \<and>
       \<not> 0 < sint (g_thread_count
                     (snd (gc_completed_threads joining (waking (s\<lparr>g_threaded := False\<rparr>))))))
    \<longrightarrow> (\<exists>ev s1. grpc_timer_manager_set_threading False sched s = Some (ev, s1)))"
proof (intro conjI allI impI)
  fix ev s1
  assume stop: "grpc_timer_manager_set_threading False sched s = Some (ev, s1)"
  then show w: "g_wakeups s1 = 0"
    by (auto simp: grpc_timer_manager_set_threading_def stop_threads_def
             split: if_splits option.splits)
  show "\<exists>ev2 s2. grpc_timer_manager_set_threading True sched' s1 = Some (ev2, s2) \<and>
                 g_wakeups s2 = g_wakeups s1"
    by (simp add: grpc_timer_manager_set_threading_def start_threads_returns)
  from stop w
  show "\<exists>ev3 s3. and_then (grpc_timer_manager_set_threading False sched)
                          (grpc_timer_manager_set_threading True sched') s = Some (ev3, s3) \<and>
                 g_wakeups s3 = 0"
    by (simp add: and_then_def grpc_timer_manager_set_threading_def start_threads_returns)
next
  assume "\<not> g_threaded s \<or> \<not> 0 < sint (g_thread_count s) \<or>
    (\<exists>waking joining rest. sched = (waking, joining) # rest \<and>
       \<not> 0 < sint (g_thread_count
                     (snd (gc_completed_threads joining (waking (s\<lparr>g_threaded := False\<rparr>))))))"
  then consider (a) "\<not> g_threaded s"
    | (b) "g_threaded s" "\<not> 0 < sint (g_thread_count s)"
    | (c) waking joining rest where "g_threaded s" "0 < sint (g_thread_count s)"
        "sched = (waking, joining) # rest"
        "\<not> 0 < sint (g_thread_count
                     (snd (gc_completed_threads joining (waking (s\<lparr>g_threaded := False\<rparr>)))))"
    by blast
  then show "\<exists>ev s1. grpc_timer_manager_set_threading False sched s = Some (ev, s1)"
  proof cases
    case a
    then show ?thesis by (simp add: grpc_timer_manager_set_threading_def stop_threads_def)
  next
    case b
    then have "stop_threads_loop sched (s\<lparr>g_threaded := False\<rparr>) = Some ([], s\<lparr>g_threaded := False\<rparr>)"
      by (cases sched) auto
    with b show ?thesis by (simp add: grpc_timer_manager_set_threading_def stop_threads_def)
  next
    case c
    obtain ev1 s0 where gc:
      "gc_completed_threads joining (waking (s\<lparr>g_threaded := False\<rparr>)) = (ev1, s0)"
      by (cases "gc_completed_threads joining (waking (s\<lparr>g_threaded := False\<rparr>))")
    with c(4) have "stop_threads_loop rest s0 = Some ([], s0)"
      by (cases rest) auto
    with c gc have "stop_threads_loop sched (s\<lparr>g_threaded := False\<rparr>) =
                      Some (Wait_cv_shutdown # ev1, s0)"
      by simp
    with c show ?thesis by (simp add: grpc_timer_manager_set_threading_def stop_threads_def)
  qed
qed

text \<open>
  Stopping the pool of two waiting workers, which both leave through
  \<^verbatim>\<open>timer_thread_cleanup\<close> while the stopping thread waits.
\<close>

theorem stop_resets_wakeups_witness:
  "g_wakeups pool_idle = 3 \<and>
   grpc_timer_manager_set_threading False
     [(run_sections [Thread_cleanup 1, Thread_cleanup 2], id)] pool_idle =
     Some ([Broadcast_cv_wait, Wait_cv_shutdown, Thread_join 2, Thread_join 1],
           pool_idle\<lparr>g_threaded := False, g_thread_count := 0, g_waiter_count := 0,
                     g_wakeups := 0\<rparr>) \<and>
   (\<exists>ev3 s3. and_then
       (grpc_timer_manager_set_threading False
          [(run_sections [Thread_cleanup 1, Thread_cleanup 2], id)])
       (grpc_timer_manager_set_threading True []) pool_idle = Some (ev3, s3) \<and>
      g_wakeups s3 = 0)"
proof -
  have r: "grpc_timer_manager_set_threading False
     [(run_sections [Thread_cleanup 1, Thread_cleanup 2], id)] pool_idle =
     Some ([Broadcast_cv_wait, Wait_cv_shutdown, Thread_join 2, Thread_join 1],
           pool_idle\<lparr>g_threaded := False, g_thread_count := 0, g_waiter_count := 0,
                     g_wakeups := 0\<rparr>)"
    by (simp add: grpc_timer_manager_set_threading_def stop_threads_def run_sections_def
          timer_thread_cleanup_def gc_completed_threads_def pool_idle_def)
  have w: "g_wakeups pool_idle = 3" by (simp add: pool_idle_def)
  from r w stop_resets_wakeups
    [of "[(run_sections [Thread_cleanup 1, Thread_cleanup 2], id)]" pool_idle "[]"]
  show ?thesis by blast
qed

text \<open>
  C6. \<^verbatim>\<open>wait_until\<close> returns false if and only if \<open>threaded\<close> is false at entry; then
  it returns at once, with no wait and no change to the coordinator. Entered with
  \<open>threaded\<close> true, it returns true as soon as a kick is pending or its wait on the
  condition variable ends; the only other outcome is that the wait never ends and the call
  does not return.
\<close>

theorem wait_until_result:
  "((\<exists>ev s1. wait_until waking next s = Some (False, ev, s1)) \<longleftrightarrow> \<not> g_threaded s) \<and>
   (\<not> g_threaded s \<longrightarrow> wait_until waking next s = Some (False, [], s)) \<and>
   (g_threaded s \<and> (g_kicked s \<or> waking \<noteq> None) \<longrightarrow>
      (\<exists>ev s1. wait_until waking next s = Some (True, ev, s1))) \<and>
   (g_threaded s \<and> \<not> g_kicked s \<and> waking = None \<longrightarrow> wait_until waking next s = None)"
  by (auto simp: wait_until_def Let_def split: prod.splits option.splits)

theorem wait_until_result_witness:
  "\<not> g_threaded pool_stopped \<and> g_threaded pool_idle \<and> \<not> g_kicked pool_idle \<and>
   wait_until None 100 pool_stopped = Some (False, [], pool_stopped) \<and>
   (\<exists>ev s1. wait_until (Some id) 100 pool_idle = Some (True, ev, s1)) \<and>
   wait_until None 100 pool_idle = None"
proof -
  have h: "\<not> g_threaded pool_stopped" "g_threaded pool_idle" "\<not> g_kicked pool_idle"
    by (simp_all add: pool_stopped_def pool_idle_def)
  from h wait_until_result [of None 100 pool_stopped]
    wait_until_result [of "Some id" 100 pool_idle]
    wait_until_result [of None 100 pool_idle]
  show ?thesis by simp
qed

text \<open>
  C7. \<^verbatim>\<open>wait_until\<close> entered with \<open>threaded\<close> and \<open>kicked\<close> both true makes no
  election and does not wait: it calls \<^verbatim>\<open>grpc_timer_consume_kick\<close>, clears
  \<open>kicked\<close>, changes nothing else (so not the generation, \<open>has_timed_waiter\<close>, the
  deadline or \<open>wakeups\<close>) and returns true, whether or not anybody would have woken it.
  More generally a call entered with \<open>threaded\<close> true returns with \<open>kicked\<close> false,
  and a call that has waited consumes a kick exactly when it finds \<open>kicked\<close> true on
  waking.
\<close>

theorem wait_until_kicked:
  "(g_threaded s \<and> g_kicked s \<longrightarrow>
      wait_until waking next s = Some (True, [Consume_kick], s\<lparr>g_kicked := False\<rparr>)) \<and>
   (\<forall>b ev s1. g_threaded s \<and> wait_until waking next s = Some (b, ev, s1) \<longrightarrow>
      \<not> g_kicked s1) \<and>
   (\<forall>f. g_threaded s \<and> \<not> g_kicked s \<longrightarrow>
      (\<exists>ev s1. wait_until (Some f) next s = Some (True, ev, s1) \<and>
         (Consume_kick \<in> set ev \<longleftrightarrow> g_kicked (f (snd (snd (wait_until_elect next s)))))))"
  by (auto simp: wait_until_def wait_until_consume_def wait_until_woken_def Let_def
           split: prod.splits option.splits if_splits)

theorem wait_until_kicked_witness:
  "g_threaded pool_kicked \<and> g_kicked pool_kicked \<and>
   wait_until None 100 pool_kicked = Some (True, [Consume_kick], pool_idle)"
proof -
  have h: "g_threaded pool_kicked" "g_kicked pool_kicked"
    by (simp_all add: pool_kicked_def pool_idle_def)
  have e: "pool_kicked\<lparr>g_kicked := False\<rparr> = pool_idle"
    by (simp add: pool_kicked_def pool_idle_def)
  from h e wait_until_kicked [of pool_kicked None 100] show ?thesis by simp
qed

text \<open>
  C8. \<^verbatim>\<open>run_some_timers\<close> first takes one from \<open>waiter_count\<close>. If that makes it
  zero and \<open>threaded\<close> is true it starts exactly one thread (counted as a waiter and as a
  thread); otherwise it signals the wait condition variable once if \<open>has_timed_waiter\<close>
  is false, and does nothing if it is true. Then it flushes the execution context without
  the mutex, joins every completed thread it finds on the list after the flush, each one
  once and in the order of the list, leaves the list empty, and adds one to
  \<open>waiter_count\<close>. When no other thread touches the coordinator meanwhile, the call
  changes nothing but this: the list is empty, and \<open>waiter_count\<close> is what it was at the
  start, or one more (as is \<open>thread_count\<close>) when a thread was started. This holds for
  every coordinator, so also when the caller is counted in \<open>waiter_count\<close>.
\<close>

theorem run_some_timers_effect:
  "run_some_timers_begin s =
     Some (if g_waiter_count s - 1 = 0 \<and> g_threaded s then [Thread_start]
           else if \<not> g_has_timed_waiter s then [Signal_cv_wait] else [],
           if g_waiter_count s - 1 = 0 \<and> g_threaded s
           then s\<lparr>g_waiter_count := g_waiter_count s - 1 + 1,
                  g_thread_count := g_thread_count s + 1\<rparr>
           else s\<lparr>g_waiter_count := g_waiter_count s - 1\<rparr>) \<and>
   (\<exists>ev1 s1. run_some_timers_begin s = Some (ev1, s1) \<and>
      run_some_timers flushing joining s =
        Some (ev1 @ [Flush_exec_ctx] @ map Thread_join (g_completed_threads (flushing s1)),
              (if g_completed_threads (flushing s1) = [] then flushing s1
               else joining ((flushing s1)\<lparr>g_completed_threads := []\<rparr>))
                \<lparr>g_waiter_count :=
                   g_waiter_count
                     (if g_completed_threads (flushing s1) = [] then flushing s1
                      else joining ((flushing s1)\<lparr>g_completed_threads := []\<rparr>)) + 1\<rparr>)) \<and>
   run_some_timers id id s =
     Some ((if g_waiter_count s - 1 = 0 \<and> g_threaded s then [Thread_start]
            else if \<not> g_has_timed_waiter s then [Signal_cv_wait] else [])
           @ [Flush_exec_ctx] @ map Thread_join (g_completed_threads s),
           s\<lparr>g_waiter_count :=
                (if g_waiter_count s - 1 = 0 \<and> g_threaded s then g_waiter_count s + 1
                 else g_waiter_count s),
             g_thread_count :=
                (if g_waiter_count s - 1 = 0 \<and> g_threaded s then g_thread_count s + 1
                 else g_thread_count s),
             g_completed_threads := []\<rparr>)"
  by (cases s)
     (simp add: run_some_timers_def run_some_timers_begin_def start_timer_thread_and_unlock_def
        gc_completed_threads_def Let_def split: prod.splits)

text \<open>
  A worker of the idle pool signals; with a timed waiter it does not; the last waiter
  starts a thread, and joins the two completed threads 4 and 9 after the flush.
\<close>

theorem run_some_timers_effect_witness:
  "run_some_timers_begin pool_idle =
     Some ([Signal_cv_wait], pool_idle\<lparr>g_waiter_count := 1\<rparr>) \<and>
   run_some_timers_begin pool_timed = Some ([], pool_timed\<lparr>g_waiter_count := 1\<rparr>) \<and>
   run_some_timers id id (pool_idle\<lparr>g_completed_threads := [4, 9], g_waiter_count := 1\<rparr>) =
     Some ([Thread_start, Flush_exec_ctx, Thread_join 4, Thread_join 9],
           pool_idle\<lparr>g_thread_count := 3\<rparr>)"
proof -
  have a: "run_some_timers_begin pool_idle =
             Some ([Signal_cv_wait], pool_idle\<lparr>g_waiter_count := 1\<rparr>)"
    using run_some_timers_effect [of pool_idle id id, THEN conjunct1]
    by (simp add: pool_idle_def)
  have b: "run_some_timers_begin pool_timed = Some ([], pool_timed\<lparr>g_waiter_count := 1\<rparr>)"
    using run_some_timers_effect [of pool_timed id id, THEN conjunct1]
    by (simp add: pool_idle_def pool_timed_def)
  have c: "run_some_timers id id (pool_idle\<lparr>g_completed_threads := [4, 9], g_waiter_count := 1\<rparr>) =
     Some ([Thread_start, Flush_exec_ctx, Thread_join 4, Thread_join 9],
           pool_idle\<lparr>g_thread_count := 3\<rparr>)"
    using run_some_timers_effect
      [of "pool_idle\<lparr>g_completed_threads := [4, 9], g_waiter_count := 1\<rparr>" id id,
       THEN conjunct2, THEN conjunct2]
    by (simp add: pool_idle_def)
  from a b c show ?thesis by simp
qed

text \<open>
  C9. \<open>timed_waiter_generation\<close> is only ever incremented, and only by a kick or by
  a won election: every critical section adds one to it in those two cases and leaves it
  alone in all others, so it does not decrease as long as the 64-bit counter does not
  overflow. A worker that goes to sleep without winning the election holds the sentinel
  \<open>timed_waiter_generation - 1\<close>, and while fewer than \<open>2 ^ 64 - 1\<close> increments have
  happened since (the counter has not wrapped round to the sentinel) the sentinel differs
  from \<open>timed_waiter_generation\<close>. So a worker that finds its own generation equal to
  the coordinator's on waking did take the timed-waiter role, and a call of
  \<^verbatim>\<open>wait_until\<close> that counts a wakeup or changes \<open>has_timed_waiter\<close> after its
  wait is the call of such a worker.
\<close>

theorem sentinel_never_matches:
  assumes elect: "wait_until_elect next s = (my, next1, s1)"
      and bound: "count_increments cs s1 < 2 ^ 64 - 1"
  shows "(\<forall>c t. g_timed_waiter_generation (section_effect c t) =
                 g_timed_waiter_generation t + (if increments c t then 1 else 0)) \<and>
         g_timed_waiter_generation (run_sections cs s1) =
           g_timed_waiter_generation s1 + of_nat (count_increments cs s1) \<and>
         (unat (g_timed_waiter_generation s1) + count_increments cs s1 < 2 ^ 64 \<longrightarrow>
            g_timed_waiter_generation s1 \<le> g_timed_waiter_generation (run_sections cs s1)) \<and>
         (my \<noteq> g_timed_waiter_generation s1 \<longrightarrow>
            my = g_timed_waiter_generation s1 - 1 \<and>
            my \<noteq> g_timed_waiter_generation (run_sections cs s1) \<and>
            wait_until_woken my (run_sections cs s1) = run_sections cs s1) \<and>
         (my = g_timed_waiter_generation (run_sections cs s1) \<longrightarrow>
            my = g_timed_waiter_generation s1 \<and>
            next \<noteq> InfFuture \<and>
            (\<not> g_has_timed_waiter s \<or> ts_less next (g_timed_waiter_deadline s))) \<and>
         (\<forall>ev s2. g_threaded s \<and> \<not> g_kicked s \<and>
            wait_until (Some (run_sections cs)) next s = Some (True, ev, s2) \<and>
            (g_wakeups s2 \<noteq> g_wakeups (run_sections cs s1) \<or>
             g_has_timed_waiter s2 \<noteq> g_has_timed_waiter (run_sections cs s1))
            \<longrightarrow> my = g_timed_waiter_generation s1)"
proof -
  let ?r = "run_sections cs s1"
  have run: "g_timed_waiter_generation ?r =
               g_timed_waiter_generation s1 + of_nat (count_increments cs s1)"
    by (rule generation_run_exact)
  have mono: "unat (g_timed_waiter_generation s1) + count_increments cs s1 < 2 ^ 64 \<longrightarrow>
                g_timed_waiter_generation s1 \<le> g_timed_waiter_generation ?r"
    using run word64_no_wrap_le by simp
  have took: "my = g_timed_waiter_generation s1 \<longleftrightarrow>
                next \<noteq> InfFuture \<and>
                (\<not> g_has_timed_waiter s \<or> ts_less next (g_timed_waiter_deadline s))"
    using elect by (auto simp: wait_until_elect_def Let_def split: if_splits)
  have sentinel: "my = g_timed_waiter_generation s1 - 1" if "my \<noteq> g_timed_waiter_generation s1"
    using elect that by (auto simp: wait_until_elect_def Let_def split: if_splits)
  have "(of_nat (count_increments cs s1) :: 64 word) \<noteq> - 1"
    using bound by (rule word64_of_nat_not_minus_one)
  then have "g_timed_waiter_generation s1 - 1 \<noteq>
               g_timed_waiter_generation s1 + of_nat (count_increments cs s1)"
    by (metis add_left_cancel diff_conv_add_uminus)
  with run have differ: "g_timed_waiter_generation s1 - 1 \<noteq> g_timed_waiter_generation ?r"
    by simp
  have lost: "my \<noteq> g_timed_waiter_generation ?r \<and> wait_until_woken my ?r = ?r"
    if "my \<noteq> g_timed_waiter_generation s1"
    using sentinel [OF that] differ by (simp add: wait_until_woken_def)
  have won: "my = g_timed_waiter_generation s1" if "my = g_timed_waiter_generation ?r"
    using that lost by blast
  have call: "my = g_timed_waiter_generation s1"
    if "g_threaded s" "\<not> g_kicked s"
       "wait_until (Some (run_sections cs)) next s = Some (True, ev, s2)"
       "g_wakeups s2 \<noteq> g_wakeups ?r \<or> g_has_timed_waiter s2 \<noteq> g_has_timed_waiter ?r"
    for ev s2
  proof (rule ccontr)
    assume "my \<noteq> g_timed_waiter_generation s1"
    then have "wait_until_woken my ?r = ?r" using lost by blast
    with that(1-3) elect have "s2 = snd (wait_until_consume ?r)"
      by (auto simp: wait_until_def split: prod.splits)
    then have "g_wakeups s2 = g_wakeups ?r" "g_has_timed_waiter s2 = g_has_timed_waiter ?r"
      by (simp_all add: wait_until_consume_def)
    with that(4) show False by simp
  qed
  show ?thesis
    using generation_section_exact run mono sentinel lost won took call by blast
qed

text \<open>
  A worker comes with the deadline 500 while the timed waiter holds 500, and sleeps with
  the sentinel 6. Meanwhile a kick, another worker consuming it, an election won by a
  third, that one's wake-up and a second kick take the generation from 7 to 10 in three
  increments; the sleeper wakes and changes nothing.
\<close>

theorem sentinel_never_matches_witness:
  "wait_until_elect 500 pool_timed = (6, InfFuture, pool_timed) \<and>
   count_increments
     [Kick_poller, Wait_until_enter 100, Wait_until_enter 200, Wait_until_return 9, Kick_poller]
     pool_timed = 3 \<and>
   g_timed_waiter_generation
     (run_sections
        [Kick_poller, Wait_until_enter 100, Wait_until_enter 200, Wait_until_return 9, Kick_poller]
        pool_timed) = 10 \<and>
   wait_until_woken 6
     (run_sections
        [Kick_poller, Wait_until_enter 100, Wait_until_enter 200, Wait_until_return 9, Kick_poller]
        pool_timed) =
     run_sections
        [Kick_poller, Wait_until_enter 100, Wait_until_enter 200, Wait_until_return 9, Kick_poller]
        pool_timed"
proof -
  let ?cs = "[Kick_poller, Wait_until_enter 100, Wait_until_enter 200, Wait_until_return 9,
              Kick_poller]"
  have e: "wait_until_elect 500 pool_timed = (6, InfFuture, pool_timed)"
    by (simp add: wait_until_elect_def pool_timed_def pool_idle_def ts_less_def InfFuture_def)
  have c: "count_increments ?cs pool_timed = 3"
    by (simp add: pool_timed_def pool_idle_def grpc_kick_poller_def wait_until_consume_def
          wait_until_elect_def wait_until_woken_def ts_less_def InfFuture_def)
  then have b: "count_increments ?cs pool_timed < 2 ^ 64 - 1" by simp
  have g: "g_timed_waiter_generation pool_timed = 7" by (simp add: pool_timed_def pool_idle_def)
  have n: "6 \<noteq> g_timed_waiter_generation pool_timed" by (simp add: g)
  note t = sentinel_never_matches [OF e b]
  from t have "g_timed_waiter_generation (run_sections ?cs pool_timed) =
                 g_timed_waiter_generation pool_timed + of_nat (count_increments ?cs pool_timed)"
    by blast
  then have r: "g_timed_waiter_generation (run_sections ?cs pool_timed) = 10"
    unfolding c g by simp
  from t n have w: "wait_until_woken 6 (run_sections ?cs pool_timed) =
                      run_sections ?cs pool_timed"
    by blast
  from e c r w show ?thesis by blast
qed

text \<open>
  C10. \<^verbatim>\<open>grpc_timer_manager_init\<close> sets \<open>threaded\<close> to false, \<open>thread_count\<close> and
  \<open>waiter_count\<close> to zero, \<open>completed_threads\<close> to the empty list, \<open>has_timed_waiter\<close>
  to false and \<open>timed_waiter_deadline\<close> to the infinite future, and then starts the first
  worker if \<open>start_threaded\<close> is set (which makes \<open>threaded\<close> true and both counts
  one). It does not write \<open>kicked\<close>, \<open>wakeups\<close>, \<open>timed_waiter_generation\<close> or
  \<open>start_threaded\<close>: they come out as they went in.
\<close>

theorem init_effect:
  "grpc_timer_manager_init s =
     Some (if g_start_threaded s then [Thread_start] else [],
           \<lparr>g_threaded = g_start_threaded s,
            g_start_threaded = g_start_threaded s,
            g_thread_count = (if g_start_threaded s then 1 else 0),
            g_waiter_count = (if g_start_threaded s then 1 else 0),
            g_completed_threads = [],
            g_kicked = g_kicked s,
            g_has_timed_waiter = False,
            g_timed_waiter_deadline = InfFuture,
            g_timed_waiter_generation = g_timed_waiter_generation s,
            g_wakeups = g_wakeups s\<rparr>)"
  by (cases s) (simp add: grpc_timer_manager_init_def start_threads_returns)

text \<open>
  The pending kick and the five wakeups of the stopped pool are still there after init.
\<close>

theorem init_effect_witness:
  "grpc_timer_manager_init pool_stopped = Some ([], pool_stopped) \<and>
   g_kicked pool_stopped \<and> g_wakeups pool_stopped = 5 \<and>
   grpc_timer_manager_init (pool_stopped\<lparr>g_start_threaded := True\<rparr>) =
     Some ([Thread_start],
           pool_stopped\<lparr>g_start_threaded := True, g_threaded := True,
                         g_thread_count := 1, g_waiter_count := 1\<rparr>)"
  using init_effect [of pool_stopped] init_effect [of "pool_stopped\<lparr>g_start_threaded := True\<rparr>"]
  by (simp add: pool_stopped_def)

end
